theory Spec2Isabelle
  imports Main "HOL-Library.Word"
begin

unbundle bit_operations_syntax

section \<open>Stepper controller (controleur-stepper.c): data model\<close>

text \<open>
  The program targets an 8-bit PIC18 and is compiled with XC8, whose plain \<open>char\<close> is
  unsigned: \<open>unsigned char\<close> and \<open>char\<close> are both modelled by 8-bit words, with
  wrap-around arithmetic and unsigned comparison. The only \<open>char\<close> values the program
  ever holds are positions 0..31 and counter values 0..26, on which a signed \<open>char\<close>
  would behave the same.
\<close>

type_synonym uchar = "8 word"

datatype Etat = ARRET | MARCHE_AVANT | FREIN_AVANT | MARCHE_ARRIERE | FREIN_ARRIERE

datatype Evenement = AVANCE | RECULE | ARRETE | TICTAC

text \<open>
  The commutation functions have no result: they write the two special function registers
  \<open>CCPR3L\<close> (PWM duty cycle) and \<open>PORTA\<close> (bridge switches). To count and order these
  calls, every call is also appended to the log \<open>appels\<close>, with its argument.
\<close>

datatype appel = Stationnement uchar | Deplacement uchar

text \<open>
  \<open>etat\<close> and \<open>pas\<close> are the two static variables of \<open>machine\<close>; \<open>CCPR3L\<close> and
  \<open>PORTA\<close> are the registers the commutation functions write.
\<close>

record moteur =
  etat :: Etat
  pas :: uchar
  CCPR3L :: uchar
  PORTA :: uchar
  appels :: "appel list"

text \<open>
  The state seen by the interrupt routine: the motor, the static counter \<open>n\<close> of
  \<open>interruptionsHP\<close> (field \<open>n_hp\<close>), the three interrupt flags it tests and clears,
  and the log \<open>evenements\<close> of the events it hands to \<open>machine\<close>, in order.
\<close>

record systeme =
  mot :: moteur
  n_hp :: uchar
  TMR2IF :: bool
  INT2IF :: bool
  INT1IF :: bool
  evenements :: "Evenement list"

section \<open>Commutation\<close>

text \<open>The three constant tables (lines 18-20, 40-43 and 46-48).\<close>

definition commutateursStationnement :: "uchar list" where
  "commutateursStationnement = [1, 4, 2, 8]"

definition cos :: "uchar list" where
  "cos = [32, 31, 27, 22, 16, 10, 5, 1,
           0,  1,  5, 10, 16, 22, 27, 31]"

definition commutateursDeplacement :: "uchar list" where
  "commutateursDeplacement = [5, 6, 10, 9]"

text \<open>
  \<open>t[i]\<close>: C does not check the index; a read past the end of the table is undefined
  behaviour, which the model makes visible as \<open>None\<close>.
\<close>

definition lire :: "uchar list \<Rightarrow> uchar \<Rightarrow> uchar option" where
  "lire t i = (if unat i < length t then Some (t ! unat i) else None)"

text \<open>\<open>PR2 = 32\<close> in \<open>main\<close>: the period of timer 2, hence of the PWM.\<close>

definition PR2 :: uchar where
  "PR2 = 32"

text \<open>\<open>void commutationStationnement(unsigned char pas)\<close>, lines 16-31.\<close>

definition commutationStationnement :: "uchar \<Rightarrow> moteur \<Rightarrow> moteur option" where
  "commutationStationnement p m =
     (let m1 = m\<lparr>appels := appels m @ [Stationnement p]\<rparr>;
          m2 = m1\<lparr>CCPR3L := 16\<rparr>;
          n = drop_bit 3 p
      in case lire commutateursStationnement n of
           None \<Rightarrow> None
         | Some v \<Rightarrow> Some (m2\<lparr>PORTA := v\<rparr>))"

text \<open>\<open>void commutationDeplacement(char pas)\<close>, lines 38-61.\<close>

definition commutationDeplacement :: "uchar \<Rightarrow> moteur \<Rightarrow> moteur option" where
  "commutationDeplacement p m =
     (let m1 = m\<lparr>appels := appels m @ [Deplacement p]\<rparr>;
          n = p AND 0x0F
      in case lire cos n of
           None \<Rightarrow> None
         | Some a \<Rightarrow>
             (let m2 = m1\<lparr>CCPR3L := a\<rparr>;
                  n' = drop_bit 3 p
              in case lire commutateursDeplacement n' of
                   None \<Rightarrow> None
                 | Some v \<Rightarrow> Some (m2\<lparr>PORTA := v\<rparr>)))"

section \<open>The state machine\<close>

text \<open>\<open>pas++; if (pas > 31) pas = 0;\<close> (lines 122-125 and 149-152).\<close>

definition pas_incremente :: "uchar \<Rightarrow> uchar" where
  "pas_incremente p = (let q = p + 1 in if 31 < q then 0 else q)"

text \<open>\<open>pas--; if (pas > 31) pas = 31;\<close> (lines 162-165 and 189-192).\<close>

definition pas_decremente :: "uchar \<Rightarrow> uchar" where
  "pas_decremente p = (let q = p - 1 in if 31 < q then 31 else q)"

text \<open>\<open>case 0: case 8: case 16: case 24:\<close> of the two \<open>switch(pas)\<close>.\<close>

definition pas_entier :: "uchar \<Rightarrow> bool" where
  "pas_entier p = (p = 0 \<or> p = 8 \<or> p = 16 \<or> p = 24)"

text \<open>
  \<open>void machine(enum Evenement evenement)\<close>, lines 97-199. The inner switches have no
  \<open>default\<close>: an event without a \<open>case\<close> leaves everything as it is.
\<close>

definition machine :: "Evenement \<Rightarrow> moteur \<Rightarrow> moteur option" where
  "machine evenement m =
     (case etat m of
        ARRET \<Rightarrow>
          (case evenement of
             AVANCE \<Rightarrow> Some (m\<lparr>etat := MARCHE_AVANT\<rparr>)
           | RECULE \<Rightarrow> Some (m\<lparr>etat := MARCHE_ARRIERE\<rparr>)
           | ARRETE \<Rightarrow> Some m
           | TICTAC \<Rightarrow> Some m)
      | MARCHE_AVANT \<Rightarrow>
          (case evenement of
             TICTAC \<Rightarrow>
               map_option (\<lambda>m'. m'\<lparr>pas := pas_incremente (pas m')\<rparr>)
                 (commutationDeplacement (pas m) m)
           | RECULE \<Rightarrow> Some (m\<lparr>etat := FREIN_AVANT\<rparr>)
           | ARRETE \<Rightarrow> Some (m\<lparr>etat := FREIN_AVANT\<rparr>)
           | AVANCE \<Rightarrow> Some m)
      | FREIN_AVANT \<Rightarrow>
          (case evenement of
             TICTAC \<Rightarrow>
               (if pas_entier (pas m)
                then map_option (\<lambda>m'. m'\<lparr>etat := ARRET\<rparr>)
                       (commutationStationnement (pas m) m)
                else map_option (\<lambda>m'. m'\<lparr>pas := pas_incremente (pas m')\<rparr>)
                       (commutationDeplacement (pas m) m))
           | AVANCE \<Rightarrow> Some m
           | RECULE \<Rightarrow> Some m
           | ARRETE \<Rightarrow> Some m)
      | MARCHE_ARRIERE \<Rightarrow>
          (case evenement of
             TICTAC \<Rightarrow>
               map_option (\<lambda>m'. m'\<lparr>pas := pas_decremente (pas m')\<rparr>)
                 (commutationDeplacement (pas m) m)
           | AVANCE \<Rightarrow> Some (m\<lparr>etat := FREIN_ARRIERE\<rparr>)
           | ARRETE \<Rightarrow> Some (m\<lparr>etat := FREIN_ARRIERE\<rparr>)
           | RECULE \<Rightarrow> Some m)
      | FREIN_ARRIERE \<Rightarrow>
          (case evenement of
             TICTAC \<Rightarrow>
               (if pas_entier (pas m)
                then map_option (\<lambda>m'. m'\<lparr>etat := ARRET\<rparr>)
                       (commutationStationnement (pas m) m)
                else map_option (\<lambda>m'. m'\<lparr>pas := pas_decremente (pas m')\<rparr>)
                       (commutationDeplacement (pas m) m))
           | AVANCE \<Rightarrow> Some m
           | RECULE \<Rightarrow> Some m
           | ARRETE \<Rightarrow> Some m))"

text \<open>Successive calls of \<open>machine\<close>, one per event, first event first.\<close>

fun machine_suite :: "Evenement list \<Rightarrow> moteur \<Rightarrow> moteur option" where
  "machine_suite [] m = Some m"
| "machine_suite (e # es) m =
     (case machine e m of None \<Rightarrow> None | Some m' \<Rightarrow> machine_suite es m')"

section \<open>The interrupt routine\<close>

text \<open>A call \<open>machine(e)\<close> from the interrupt routine, noted in \<open>evenements\<close>.\<close>

definition appelle_machine :: "Evenement \<Rightarrow> systeme \<Rightarrow> systeme option" where
  "appelle_machine e s =
     map_option (\<lambda>m'. s\<lparr>mot := m', evenements := evenements s @ [e]\<rparr>) (machine e (mot s))"

text \<open>\<open>void interrupt interruptionsHP()\<close>, lines 204-229.\<close>

definition interruptionsHP :: "systeme \<Rightarrow> systeme option" where
  "interruptionsHP s =
     Option.bind
       (if TMR2IF s then
          Option.bind
            (let s1 = s\<lparr>TMR2IF := False\<rparr>
             in if n_hp s1 = 0 then appelle_machine TICTAC s1 else Some s1)
            (\<lambda>s2. let s3 = s2\<lparr>n_hp := n_hp s2 + 1\<rparr>
                  in Some (if 25 < n_hp s3 then s3\<lparr>n_hp := 0\<rparr> else s3))
        else Some s)
       (\<lambda>s4. Option.bind
          (if INT2IF s4 then appelle_machine AVANCE (s4\<lparr>INT2IF := False\<rparr>) else Some s4)
          (\<lambda>s5. if INT1IF s5 then appelle_machine RECULE (s5\<lparr>INT1IF := False\<rparr>)
                else Some s5))"

text \<open>
  One firing of the fast timer: the hardware raises \<open>TMR2IF\<close> and the routine runs.
  \<open>tirs k\<close> is \<open>k\<close> firings in a row.
\<close>

definition tir :: "systeme \<Rightarrow> systeme option" where
  "tir s = interruptionsHP (s\<lparr>TMR2IF := True\<rparr>)"

fun tirs :: "nat \<Rightarrow> systeme \<Rightarrow> systeme option" where
  "tirs 0 s = Some s"
| "tirs (Suc k) s = (case tir s of None \<Rightarrow> None | Some s' \<Rightarrow> tirs k s')"

text \<open>The number of \<open>TICTAC\<close> events handed to \<open>machine\<close> so far.\<close>

definition nb_tictac :: "systeme \<Rightarrow> nat" where
  "nb_tictac s = length (filter (\<lambda>e. e = TICTAC) (evenements s))"

section \<open>Auxiliary notions used by the statements\<close>

text \<open>
  The transition table of the specification (section 4.3), as the set of the
  (state, event) pairs that have a row in it. The row "Stopped, Stop/Tick, no-op" lists
  the four events in \<open>ARRET\<close>.
\<close>

definition table_transitions :: "Etat \<Rightarrow> Evenement \<Rightarrow> bool" where
  "table_transitions e ev =
     (case e of
        ARRET \<Rightarrow> True
      | MARCHE_AVANT \<Rightarrow> ev = TICTAC \<or> ev = RECULE \<or> ev = ARRETE
      | FREIN_AVANT \<Rightarrow> ev = TICTAC
      | MARCHE_ARRIERE \<Rightarrow> ev = TICTAC \<or> ev = AVANCE \<or> ev = ARRETE
      | FREIN_ARRIERE \<Rightarrow> ev = TICTAC)"

text \<open>The number of micro-steps from a position to the next full step, in each direction.\<close>

definition distance_avant :: "uchar \<Rightarrow> nat" where
  "distance_avant p = (32 - unat p) mod 8"

definition distance_arriere :: "uchar \<Rightarrow> nat" where
  "distance_arriere p = unat p mod 8"

section \<open>Start-up state and the divider as the specification words it\<close>

text \<open>
  The state in which \<open>main\<close> reaches its final \<open>while(1)\<close>: the static variables hold
  their initialisers (\<open>etat = ARRET\<close>, \<open>pas = 0\<close>, \<open>n = 0\<close>), \<open>PORTA = 9\<close> has been
  overwritten by the call \<open>commutationStationnement(0)\<close>, which leaves \<open>CCPR3L = 16\<close>
  and \<open>PORTA = 1\<close>, and no interrupt flag is raised.
\<close>

definition demarrage :: systeme where
  "demarrage =
     \<lparr>mot = \<lparr>etat = ARRET, pas = 0, CCPR3L = 16, PORTA = 1, appels = [Stationnement 0]\<rparr>,
      n_hp = 0, TMR2IF = False, INT2IF = False, INT1IF = False, evenements = []\<rparr>"

text \<open>
  The divider in the specification's words (section 8), for 26 firings from the state
  \<open>s\<close>: firings 1 to 25 hand no \<open>TICTAC\<close> to the machine, firing 26 hands exactly one,
  and the counter is back to 0.
\<close>

definition diviseur_selon_spec :: "systeme \<Rightarrow> bool" where
  "diviseur_selon_spec s \<longleftrightarrow>
     (\<forall>k \<in> {1..25}. map_option nb_tictac (tirs k s) = Some (nb_tictac s))
     \<and> map_option nb_tictac (tirs 26 s) = Some (nb_tictac s + 1)
     \<and> map_option n_hp (tirs 26 s) = Some 0"

section \<open>Positions and table indices\<close>

lemma pas_cases:
  fixes p :: uchar
  assumes "p \<le> 31"
  shows "p \<in> {0,1,2,3,4,5,6,7,8,9,10,11,12,13,14,15,16,17,18,19,20,21,22,23,24,25,26,27,28,29,30,31}"
proof -
  have "unat p \<le> 31" using assms by (simp add: word_le_nat_alt)
  then have "unat p \<in> {0,1,2,3,4,5,6,7,8,9,10,11,12,13,14,15,16,17,18,19,20,21,22,23,24,25,26,27,28,29,30,31}"
    by simp arith
  then show ?thesis
    by (simp add: word_unat_eq_iff)
qed

lemma unat_pas_le: "(p :: uchar) \<le> 31 \<longleftrightarrow> unat p \<le> 31"
  by (simp add: word_le_nat_alt)

lemma unat_drop_bit_3: "unat (drop_bit 3 (p::uchar)) = unat p div 8"
  by (simp add: drop_bit_eq_div unat_div_distrib)

lemma unat_and_15: "unat ((p::uchar) AND 0x0F) = unat p mod 16"
proof -
  have "p AND 0x0F = take_bit 4 p"
    by (simp add: take_bit_eq_mask mask_eq_exp_minus_1)
  then show ?thesis
    by (simp add: unsigned_take_bit_eq take_bit_eq_mod unat_mod_distrib)
qed

lemma indice_commutateurs:
  fixes p :: uchar
  assumes "p \<le> 31"
  shows "unat (drop_bit 3 p) < 4"
proof -
  have "unat p \<le> 31" using assms by (simp add: unat_pas_le)
  then show ?thesis by (simp add: unat_drop_bit_3)
qed

lemma indice_cos:
  fixes p :: uchar
  shows "unat (p AND 0x0F) < 16"
  by (simp add: unat_and_15)

lemma length_tables:
  "length commutateursStationnement = 4"
  "length commutateursDeplacement = 4"
  "length cos = 16"
  by (simp_all add: commutateursStationnement_def commutateursDeplacement_def cos_def)

lemma commutationStationnement_Some:
  assumes "p \<le> 31"
  shows "commutationStationnement p m =
    Some (m\<lparr>appels := appels m @ [Stationnement p], CCPR3L := 16,
            PORTA := commutateursStationnement ! unat (drop_bit 3 p)\<rparr>)"
  using indice_commutateurs [OF assms]
  by (simp add: commutationStationnement_def lire_def length_tables)

lemma commutationDeplacement_Some:
  assumes "p \<le> 31"
  shows "commutationDeplacement p m =
    Some (m\<lparr>appels := appels m @ [Deplacement p], CCPR3L := cos ! unat (p AND 0x0F),
            PORTA := commutateursDeplacement ! unat (drop_bit 3 p)\<rparr>)"
  using indice_commutateurs [OF assms] indice_cos [of p]
  by (simp add: commutationDeplacement_def lire_def length_tables)

lemma pas_incremente_unat:
  assumes "p \<le> 31"
  shows "unat (pas_incremente p) = (unat p + 1) mod 32"
  using pas_cases [OF assms] by (auto simp: pas_incremente_def)

lemma pas_decremente_uint:
  assumes "p \<le> 31"
  shows "uint (pas_decremente p) = (uint p - 1) mod 32"
  using pas_cases [OF assms] by (auto simp: pas_decremente_def)

lemma pas_incremente_le: "pas_incremente p \<le> 31"
  by (simp add: pas_incremente_def Let_def not_less)

lemma pas_decremente_le: "pas_decremente p \<le> 31"
  by (simp add: pas_decremente_def Let_def not_less)

lemma pas_entier_set: "pas_entier p \<longleftrightarrow> p \<in> {0, 8, 16, 24}"
  by (auto simp: pas_entier_def)

lemma pas_entier_le: "pas_entier p \<Longrightarrow> p \<le> 31"
  by (auto simp: pas_entier_def)

lemma distance_avant_0:
  assumes "p \<le> 31"
  shows "pas_entier p \<longleftrightarrow> distance_avant p = 0"
  using pas_cases [OF assms] by (auto simp: pas_entier_def distance_avant_def)

lemma distance_avant_Suc:
  assumes "p \<le> 31" "\<not> pas_entier p"
  shows "distance_avant p = Suc (distance_avant (pas_incremente p))"
  using pas_cases [OF assms(1)] assms(2)
  by (auto simp: pas_entier_def distance_avant_def pas_incremente_def)

lemma distance_arriere_0:
  assumes "p \<le> 31"
  shows "pas_entier p \<longleftrightarrow> distance_arriere p = 0"
  using pas_cases [OF assms] by (auto simp: pas_entier_def distance_arriere_def)

lemma distance_arriere_Suc:
  assumes "p \<le> 31" "\<not> pas_entier p"
  shows "distance_arriere p = Suc (distance_arriere (pas_decremente p))"
  using pas_cases [OF assms(1)] assms(2)
  by (auto simp: pas_entier_def distance_arriere_def pas_decremente_def)

lemma pas_decremente_unat:
  assumes "p \<le> 31" "\<not> pas_entier p"
  shows "unat (pas_decremente p) = unat p - 1"
  using pas_cases [OF assms(1)] assms(2)
  by (auto simp: pas_entier_def pas_decremente_def)

lemma prochain_pas_avant:
  assumes "p \<le> 31"
  shows "(unat p + distance_avant p) mod 32 = (8 * ((unat p + 7) div 8)) mod 32"
  using pas_cases [OF assms] by (auto simp: distance_avant_def)

lemma prochain_pas_arriere:
  "unat p - distance_arriere p = 8 * (unat p div 8)"
  by (simp add: distance_arriere_def minus_mod_eq_mult_div)

text \<open>Unfolding sets for the evaluation of the model on concrete states.\<close>

lemmas evalue_commutation =
  commutationStationnement_def commutationDeplacement_def lire_def
  commutateursStationnement_def commutateursDeplacement_def cos_def drop_bit_eq_div

lemmas evalue_machine =
  machine_def evalue_commutation pas_entier_def pas_incremente_def pas_decremente_def

text \<open>Outside 0..31 the switch tables are read past their end.\<close>

lemma commutation_hors_tables:
  "commutationStationnement 32 m = None"
  "commutationDeplacement 32 m = None"
  by (simp_all add: evalue_commutation)

section \<open>One call of the state machine\<close>

lemma machine_MARCHE_AVANT_TICTAC:
  assumes "etat m = MARCHE_AVANT" "pas m \<le> 31"
  shows "machine TICTAC m =
    Some (m\<lparr>appels := appels m @ [Deplacement (pas m)],
            CCPR3L := cos ! unat (pas m AND 0x0F),
            PORTA := commutateursDeplacement ! unat (drop_bit 3 (pas m)),
            pas := pas_incremente (pas m)\<rparr>)"
  using assms by (simp add: machine_def commutationDeplacement_Some)

lemma machine_MARCHE_ARRIERE_TICTAC:
  assumes "etat m = MARCHE_ARRIERE" "pas m \<le> 31"
  shows "machine TICTAC m =
    Some (m\<lparr>appels := appels m @ [Deplacement (pas m)],
            CCPR3L := cos ! unat (pas m AND 0x0F),
            PORTA := commutateursDeplacement ! unat (drop_bit 3 (pas m)),
            pas := pas_decremente (pas m)\<rparr>)"
  using assms by (simp add: machine_def commutationDeplacement_Some)

lemma machine_FREIN_AVANT_TICTAC:
  assumes "etat m = FREIN_AVANT" "pas m \<le> 31" "\<not> pas_entier (pas m)"
  shows "machine TICTAC m =
    Some (m\<lparr>appels := appels m @ [Deplacement (pas m)],
            CCPR3L := cos ! unat (pas m AND 0x0F),
            PORTA := commutateursDeplacement ! unat (drop_bit 3 (pas m)),
            pas := pas_incremente (pas m)\<rparr>)"
  using assms by (simp add: machine_def commutationDeplacement_Some)

lemma machine_FREIN_ARRIERE_TICTAC:
  assumes "etat m = FREIN_ARRIERE" "pas m \<le> 31" "\<not> pas_entier (pas m)"
  shows "machine TICTAC m =
    Some (m\<lparr>appels := appels m @ [Deplacement (pas m)],
            CCPR3L := cos ! unat (pas m AND 0x0F),
            PORTA := commutateursDeplacement ! unat (drop_bit 3 (pas m)),
            pas := pas_decremente (pas m)\<rparr>)"
  using assms by (simp add: machine_def commutationDeplacement_Some)

lemma machine_FREIN_TICTAC_entier:
  assumes "etat m = FREIN_AVANT \<or> etat m = FREIN_ARRIERE" "pas_entier (pas m)"
  shows "machine TICTAC m =
    Some (m\<lparr>appels := appels m @ [Stationnement (pas m)],
            CCPR3L := 16,
            PORTA := commutateursStationnement ! unat (drop_bit 3 (pas m)),
            etat := ARRET\<rparr>)"
proof -
  have "pas m \<le> 31" using assms(2) by (rule pas_entier_le)
  then show ?thesis
    using assms by (auto simp: machine_def commutationStationnement_Some)
qed

lemma machine_sauf_TICTAC:
  assumes "ev \<noteq> TICTAC"
  shows "\<exists>e'. machine ev m = Some (m\<lparr>etat := e'\<rparr>)"
proof -
  have "machine ev m = Some (m\<lparr>etat := etat m\<rparr>)
      \<or> machine ev m = Some (m\<lparr>etat := MARCHE_AVANT\<rparr>)
      \<or> machine ev m = Some (m\<lparr>etat := MARCHE_ARRIERE\<rparr>)
      \<or> machine ev m = Some (m\<lparr>etat := FREIN_AVANT\<rparr>)
      \<or> machine ev m = Some (m\<lparr>etat := FREIN_ARRIERE\<rparr>)"
    using assms by (cases "etat m"; cases ev) (simp_all add: machine_def)
  then show ?thesis by blast
qed

section \<open>Sequences of calls\<close>

lemma machine_suite_append:
  "machine_suite (xs @ ys) m = Option.bind (machine_suite xs m) (machine_suite ys)"
  by (induction xs arbitrary: m) (auto split: option.splits)

lemma machine_suite_snoc:
  "machine_suite (replicate (Suc k) e) m =
     Option.bind (machine_suite (replicate k e) m) (machine e)"
proof -
  have "machine_suite [e] m' = machine e m'" for m'
    by (simp split: option.splits)
  then have "machine_suite [e] = machine e" by (rule ext)
  moreover have "replicate (Suc k) e = replicate k e @ [e]"
    by (simp add: replicate_append_same)
  ultimately show ?thesis
    by (simp only: machine_suite_append)
qed

lemma machine_suite_ARRET_fixe:
  assumes "etat m = ARRET" "set evs \<subseteq> {ARRETE, TICTAC}"
  shows "machine_suite evs m = Some m"
  using assms by (induction evs) (auto simp: machine_def)

lemma marche_avant_suite:
  assumes "etat m = MARCHE_AVANT" "pas m \<le> 31"
  shows "\<exists>m'. machine_suite (replicate k TICTAC) m = Some m' \<and> etat m' = MARCHE_AVANT
       \<and> unat (pas m') = (unat (pas m) + k) mod 32
       \<and> appels m' =
           appels m @ map (\<lambda>i. Deplacement (of_nat ((unat (pas m) + i) mod 32))) [0..<k]"
proof (induction k)
  case 0
  have "unat (pas m) \<le> 31" using assms(2) by (simp add: unat_pas_le)
  then show ?case using assms(1) by simp
next
  case (Suc k)
  then obtain m' where m': "machine_suite (replicate k TICTAC) m = Some m'"
      "etat m' = MARCHE_AVANT" "unat (pas m') = (unat (pas m) + k) mod 32"
      "appels m' =
         appels m @ map (\<lambda>i. Deplacement (of_nat ((unat (pas m) + i) mod 32))) [0..<k]"
    by auto
  have le: "pas m' \<le> 31" using m'(3) by (simp add: unat_pas_le)
  have p': "of_nat ((unat (pas m) + k) mod 32) = pas m'"
    using m'(3) [symmetric] by simp
  have "unat (pas_incremente (pas m')) = (unat (pas m) + Suc k) mod 32"
    unfolding pas_incremente_unat [OF le] m'(3) by (simp add: mod_Suc_eq)
  then show ?case
    unfolding machine_suite_snoc m'(1)
    by (simp add: machine_MARCHE_AVANT_TICTAC [OF m'(2) le] m'(2) m'(4) p')
qed

lemma machine_TICTAC_Some:
  assumes "pas m \<le> 31"
  shows "\<exists>m'. machine TICTAC m = Some m' \<and> pas m' \<le> 31
           \<and> (etat m' = ARRET \<longrightarrow> m' = m \<or> pas_entier (pas m'))"
proof (cases "etat m")
  case ARRET
  then show ?thesis using assms by (simp add: machine_def)
next
  case MARCHE_AVANT
  then show ?thesis
    using assms by (simp add: machine_MARCHE_AVANT_TICTAC pas_incremente_le)
next
  case FREIN_AVANT
  then show ?thesis
    using assms
    by (cases "pas_entier (pas m)")
      (simp_all add: machine_FREIN_AVANT_TICTAC machine_FREIN_TICTAC_entier pas_incremente_le)
next
  case MARCHE_ARRIERE
  then show ?thesis
    using assms by (simp add: machine_MARCHE_ARRIERE_TICTAC pas_decremente_le)
next
  case FREIN_ARRIERE
  then show ?thesis
    using assms
    by (cases "pas_entier (pas m)")
      (simp_all add: machine_FREIN_ARRIERE_TICTAC machine_FREIN_TICTAC_entier pas_decremente_le)
qed

lemma invariant_machine:
  assumes "pas m \<le> 31" "etat m = ARRET \<longrightarrow> pas_entier (pas m)"
  shows "\<exists>m'. machine e m = Some m' \<and> pas m' \<le> 31
           \<and> (etat m' = ARRET \<longrightarrow> pas_entier (pas m'))"
proof (cases "e = TICTAC")
  case True
  then show ?thesis
    using machine_TICTAC_Some [OF assms(1)] assms(2) by auto
next
  case False
  then show ?thesis
    using assms by (cases "etat m"; cases e) (simp_all add: machine_def)
qed

lemma invariant_machine_suite:
  assumes "pas m \<le> 31" "etat m = ARRET \<longrightarrow> pas_entier (pas m)"
  shows "\<exists>m'. machine_suite evs m = Some m' \<and> pas m' \<le> 31
           \<and> (etat m' = ARRET \<longrightarrow> pas_entier (pas m'))"
  using assms
proof (induction evs arbitrary: m)
  case Nil
  then show ?case by simp
next
  case (Cons e evs)
  obtain m1 where m1: "machine e m = Some m1" "pas m1 \<le> 31"
      "etat m1 = ARRET \<longrightarrow> pas_entier (pas m1)"
    using invariant_machine [OF Cons.prems] by blast
  show ?case
    using Cons.IH [OF m1(2,3)] m1(1) by simp
qed

lemma freinage_avant_trace:
  assumes "etat m = FREIN_AVANT" "pas m \<le> 31" "distance_avant (pas m) = d"
  shows "\<exists>m'. machine_suite (replicate (Suc d) TICTAC) m = Some m' \<and> etat m' = ARRET
       \<and> pas_entier (pas m')
       \<and> unat (pas m') = (unat (pas m) + d) mod 32
       \<and> appels m' =
           appels m @ map (\<lambda>i. Deplacement (of_nat ((unat (pas m) + i) mod 32))) [0..<d]
             @ [Stationnement (pas m')]"
  using assms
proof (induction d arbitrary: m)
  case 0
  then have en: "pas_entier (pas m)" by (simp add: distance_avant_0)
  have "unat (pas m) \<le> 31" using 0(2) by (simp add: unat_pas_le)
  then show ?case
    using 0(1) en by (simp add: machine_FREIN_TICTAC_entier)
next
  case (Suc d)
  then have ne: "\<not> pas_entier (pas m)" by (simp add: distance_avant_0)
  let ?m1 = "m\<lparr>appels := appels m @ [Deplacement (pas m)],
            CCPR3L := cos ! unat (pas m AND 0x0F),
            PORTA := commutateursDeplacement ! unat (drop_bit 3 (pas m)),
            pas := pas_incremente (pas m)\<rparr>"
  have step: "machine TICTAC m = Some ?m1"
    by (rule machine_FREIN_AVANT_TICTAC [OF Suc.prems(1,2) ne])
  have "distance_avant (pas ?m1) = d"
    using distance_avant_Suc [OF Suc.prems(2) ne] Suc.prems(3) by simp
  moreover have "etat ?m1 = FREIN_AVANT" "pas ?m1 \<le> 31"
    using Suc.prems(1) by (simp_all add: pas_incremente_le)
  ultimately obtain m' where m': "machine_suite (replicate (Suc d) TICTAC) ?m1 = Some m'"
      "etat m' = ARRET" "pas_entier (pas m')"
      "unat (pas m') = (unat (pas ?m1) + d) mod 32"
      "appels m' = appels ?m1
         @ map (\<lambda>i. Deplacement (of_nat ((unat (pas ?m1) + i) mod 32))) [0..<d]
         @ [Stationnement (pas m')]"
    using Suc.IH [of ?m1] by blast
  have u: "unat (pas ?m1) = (unat (pas m) + 1) mod 32"
    using pas_incremente_unat [OF Suc.prems(2)] by simp
  have s: "((unat (pas m) + 1) mod 32 + i) mod 32 = (unat (pas m) + Suc i) mod 32" for i
    by (simp add: mod_add_left_eq)
  have "unat (pas m) \<le> 31" using Suc.prems(2) by (simp add: unat_pas_le)
  then have z: "of_nat (unat (pas m) mod 32) = pas m" by simp
  have "map (\<lambda>i. Deplacement (of_nat ((unat (pas m) + i) mod 32))) [0..<Suc d] =
      Deplacement (pas m) # map (\<lambda>i. Deplacement (of_nat ((unat (pas m) + Suc i) mod 32))) [0..<d]"
    unfolding map_upt_Suc by (simp add: z)
  then have "appels m' = appels m
      @ map (\<lambda>i. Deplacement (of_nat ((unat (pas m) + i) mod 32))) [0..<Suc d]
      @ [Stationnement (pas m')]"
    unfolding m'(5) u s by simp
  moreover have "unat (pas m') = (unat (pas m) + Suc d) mod 32"
    unfolding m'(4) u s ..
  moreover have "machine_suite (replicate (Suc (Suc d)) TICTAC) m = Some m'"
    using step m'(1) by simp
  ultimately show ?case
    using m'(2,3) by blast
qed

lemma freinage_arriere_trace:
  assumes "etat m = FREIN_ARRIERE" "pas m \<le> 31" "distance_arriere (pas m) = d"
  shows "\<exists>m'. machine_suite (replicate (Suc d) TICTAC) m = Some m' \<and> etat m' = ARRET
       \<and> pas_entier (pas m')
       \<and> unat (pas m') = unat (pas m) - d
       \<and> appels m' =
           appels m @ map (\<lambda>i. Deplacement (of_nat (unat (pas m) - i))) [0..<d]
             @ [Stationnement (pas m')]"
  using assms
proof (induction d arbitrary: m)
  case 0
  then have en: "pas_entier (pas m)" by (simp add: distance_arriere_0)
  then show ?case
    using 0(1) by (simp add: machine_FREIN_TICTAC_entier)
next
  case (Suc d)
  then have ne: "\<not> pas_entier (pas m)" by (simp add: distance_arriere_0)
  let ?m1 = "m\<lparr>appels := appels m @ [Deplacement (pas m)],
            CCPR3L := cos ! unat (pas m AND 0x0F),
            PORTA := commutateursDeplacement ! unat (drop_bit 3 (pas m)),
            pas := pas_decremente (pas m)\<rparr>"
  have step: "machine TICTAC m = Some ?m1"
    by (rule machine_FREIN_ARRIERE_TICTAC [OF Suc.prems(1,2) ne])
  have "distance_arriere (pas ?m1) = d"
    using distance_arriere_Suc [OF Suc.prems(2) ne] Suc.prems(3) by simp
  moreover have "etat ?m1 = FREIN_ARRIERE" "pas ?m1 \<le> 31"
    using Suc.prems(1) by (simp_all add: pas_decremente_le)
  ultimately obtain m' where m': "machine_suite (replicate (Suc d) TICTAC) ?m1 = Some m'"
      "etat m' = ARRET" "pas_entier (pas m')"
      "unat (pas m') = unat (pas ?m1) - d"
      "appels m' = appels ?m1
         @ map (\<lambda>i. Deplacement (of_nat (unat (pas ?m1) - i))) [0..<d]
         @ [Stationnement (pas m')]"
    using Suc.IH [of ?m1] by blast
  have u: "unat (pas ?m1) = unat (pas m) - 1"
    using pas_decremente_unat [OF Suc.prems(2) ne] by simp
  have s: "unat (pas m) - 1 - i = unat (pas m) - Suc i" for i
    by simp
  have "map (\<lambda>i. Deplacement (of_nat (unat (pas m) - i))) [0..<Suc d] =
      Deplacement (pas m) # map (\<lambda>i. Deplacement (of_nat (unat (pas m) - Suc i))) [0..<d]"
    unfolding map_upt_Suc by simp
  then have "appels m' = appels m
      @ map (\<lambda>i. Deplacement (of_nat (unat (pas m) - i))) [0..<Suc d]
      @ [Stationnement (pas m')]"
    unfolding m'(5) u s by simp
  moreover have "unat (pas m') = unat (pas m) - Suc d"
    unfolding m'(4) u s ..
  moreover have "machine_suite (replicate (Suc (Suc d)) TICTAC) m = Some m'"
    using step m'(1) by simp
  ultimately show ?case
    using m'(2,3) by blast
qed

text \<open>While braking, before the full step is reached, the state does not change.\<close>

lemma freinage_avant_pendant:
  assumes "etat m = FREIN_AVANT" "pas m \<le> 31" "j \<le> distance_avant (pas m)"
  shows "map_option etat (machine_suite (replicate j TICTAC) m) = Some FREIN_AVANT"
  using assms
proof (induction j arbitrary: m)
  case 0
  then show ?case by simp
next
  case (Suc j)
  then have ne: "\<not> pas_entier (pas m)" by (simp add: distance_avant_0)
  let ?m1 = "m\<lparr>appels := appels m @ [Deplacement (pas m)],
            CCPR3L := cos ! unat (pas m AND 0x0F),
            PORTA := commutateursDeplacement ! unat (drop_bit 3 (pas m)),
            pas := pas_incremente (pas m)\<rparr>"
  have step: "machine TICTAC m = Some ?m1"
    by (rule machine_FREIN_AVANT_TICTAC [OF Suc.prems(1,2) ne])
  have "j \<le> distance_avant (pas ?m1)"
    using distance_avant_Suc [OF Suc.prems(2) ne] Suc.prems(3) by simp
  moreover have "etat ?m1 = FREIN_AVANT" "pas ?m1 \<le> 31"
    using Suc.prems(1) by (simp_all add: pas_incremente_le)
  ultimately have "map_option etat (machine_suite (replicate j TICTAC) ?m1) = Some FREIN_AVANT"
    by (intro Suc.IH)
  then show ?case
    using step by simp
qed

lemma freinage_arriere_pendant:
  assumes "etat m = FREIN_ARRIERE" "pas m \<le> 31" "j \<le> distance_arriere (pas m)"
  shows "map_option etat (machine_suite (replicate j TICTAC) m) = Some FREIN_ARRIERE"
  using assms
proof (induction j arbitrary: m)
  case 0
  then show ?case by simp
next
  case (Suc j)
  then have ne: "\<not> pas_entier (pas m)" by (simp add: distance_arriere_0)
  let ?m1 = "m\<lparr>appels := appels m @ [Deplacement (pas m)],
            CCPR3L := cos ! unat (pas m AND 0x0F),
            PORTA := commutateursDeplacement ! unat (drop_bit 3 (pas m)),
            pas := pas_decremente (pas m)\<rparr>"
  have step: "machine TICTAC m = Some ?m1"
    by (rule machine_FREIN_ARRIERE_TICTAC [OF Suc.prems(1,2) ne])
  have "j \<le> distance_arriere (pas ?m1)"
    using distance_arriere_Suc [OF Suc.prems(2) ne] Suc.prems(3) by simp
  moreover have "etat ?m1 = FREIN_ARRIERE" "pas ?m1 \<le> 31"
    using Suc.prems(1) by (simp_all add: pas_decremente_le)
  ultimately have "map_option etat (machine_suite (replicate j TICTAC) ?m1) = Some FREIN_ARRIERE"
    by (intro Suc.IH)
  then show ?case
    using step by simp
qed

lemma machine_suite_ARRET_8:
  assumes "machine_suite (replicate (Suc d) TICTAC) m = Some m'" "etat m' = ARRET" "d < 8"
  shows "machine_suite (replicate 8 TICTAC) m = Some m'"
proof -
  have "replicate 8 TICTAC = replicate (Suc d) TICTAC @ replicate (7 - d) TICTAC"
    using assms(3) by (simp add: replicate_add [symmetric] del: replicate_Suc)
  moreover have "machine_suite (replicate (7 - d) TICTAC) m' = Some m'"
    using assms(2) by (intro machine_suite_ARRET_fixe) auto
  ultimately show ?thesis
    by (simp add: machine_suite_append assms(1) del: replicate_Suc)
qed

lemma replicate_40:
  "replicate 40 x = [x,x,x,x,x,x,x,x,x,x, x,x,x,x,x,x,x,x,x,x, x,x,x,x,x,x,x,x,x,x,
     x,x,x,x,x,x,x,x,x,x]"
  by (simp add: numeral_eq_Suc)

section \<open>The interrupt routine and the divider\<close>

lemma appelle_machine_TICTAC:
  assumes "pas (mot s) \<le> 31"
  shows "\<exists>m'. appelle_machine TICTAC s =
            Some (s\<lparr>mot := m', evenements := evenements s @ [TICTAC]\<rparr>) \<and> pas m' \<le> 31"
  using machine_TICTAC_Some [OF assms] by (auto simp: appelle_machine_def)

lemma appelle_machine_autre:
  assumes "ev \<noteq> TICTAC"
  shows "\<exists>e'. appelle_machine ev s =
            Some (s\<lparr>mot := (mot s)\<lparr>etat := e'\<rparr>, evenements := evenements s @ [ev]\<rparr>)"
  using machine_sauf_TICTAC [OF assms, of "mot s"] by (auto simp: appelle_machine_def)

text \<open>The second half of the routine: the two buttons.\<close>

lemma interruptions_boutons:
  "\<exists>t'. Option.bind
      (if INT2IF t then appelle_machine AVANCE (t\<lparr>INT2IF := False\<rparr>) else Some t)
      (\<lambda>s5. if INT1IF s5 then appelle_machine RECULE (s5\<lparr>INT1IF := False\<rparr>) else Some s5)
      = Some t'
    \<and> pas (mot t') = pas (mot t) \<and> n_hp t' = n_hp t \<and> nb_tictac t' = nb_tictac t"
proof -
  obtain t1 where t1:
      "(if INT2IF t then appelle_machine AVANCE (t\<lparr>INT2IF := False\<rparr>) else Some t) = Some t1"
      "pas (mot t1) = pas (mot t)" "n_hp t1 = n_hp t" "nb_tictac t1 = nb_tictac t"
  proof (cases "INT2IF t")
    case True
    obtain e' where "appelle_machine AVANCE (t\<lparr>INT2IF := False\<rparr>) =
        Some (t\<lparr>INT2IF := False, mot := (mot t)\<lparr>etat := e'\<rparr>,
                evenements := evenements t @ [AVANCE]\<rparr>)"
      using appelle_machine_autre [of AVANCE "t\<lparr>INT2IF := False\<rparr>"] by auto
    then show ?thesis using that True by (simp add: nb_tictac_def)
  next
    case False
    then show ?thesis using that by simp
  qed
  obtain t2 where t2:
      "(if INT1IF t1 then appelle_machine RECULE (t1\<lparr>INT1IF := False\<rparr>) else Some t1) = Some t2"
      "pas (mot t2) = pas (mot t1)" "n_hp t2 = n_hp t1" "nb_tictac t2 = nb_tictac t1"
  proof (cases "INT1IF t1")
    case True
    obtain e' where "appelle_machine RECULE (t1\<lparr>INT1IF := False\<rparr>) =
        Some (t1\<lparr>INT1IF := False, mot := (mot t1)\<lparr>etat := e'\<rparr>,
                evenements := evenements t1 @ [RECULE]\<rparr>)"
      using appelle_machine_autre [of RECULE "t1\<lparr>INT1IF := False\<rparr>"] by auto
    then show ?thesis using that True by (simp add: nb_tictac_def)
  next
    case False
    then show ?thesis using that by simp
  qed
  show ?thesis
    using t1 t2 by simp
qed

text \<open>The first half: timer 2 and the divider.\<close>

lemma interruptions_minuterie:
  assumes "pas (mot s) \<le> 31"
  shows "\<exists>t. Option.bind
      (let s1 = s\<lparr>TMR2IF := False\<rparr>
       in if n_hp s1 = 0 then appelle_machine TICTAC s1 else Some s1)
      (\<lambda>s2. let s3 = s2\<lparr>n_hp := n_hp s2 + 1\<rparr>
            in Some (if 25 < n_hp s3 then s3\<lparr>n_hp := 0\<rparr> else s3))
      = Some t
    \<and> pas (mot t) \<le> 31
    \<and> n_hp t = (if 25 < n_hp s + 1 then 0 else n_hp s + 1)
    \<and> nb_tictac t = (if n_hp s = 0 then Suc (nb_tictac s) else nb_tictac s)"
proof (cases "n_hp s = 0")
  case True
  obtain m' where "appelle_machine TICTAC (s\<lparr>TMR2IF := False\<rparr>) =
      Some (s\<lparr>TMR2IF := False, mot := m', evenements := evenements s @ [TICTAC]\<rparr>)"
      "pas m' \<le> 31"
    using appelle_machine_TICTAC [of "s\<lparr>TMR2IF := False\<rparr>"] assms by auto
  then show ?thesis using True by (simp add: nb_tictac_def)
next
  case False
  then show ?thesis using assms by (simp add: nb_tictac_def Let_def)
qed

lemma tir_effet:
  assumes "pas (mot s) \<le> 31"
  shows "\<exists>s'. tir s = Some s' \<and> pas (mot s') \<le> 31
    \<and> n_hp s' = (if 25 < n_hp s + 1 then 0 else n_hp s + 1)
    \<and> nb_tictac s' = (if n_hp s = 0 then Suc (nb_tictac s) else nb_tictac s)"
proof -
  let ?s = "s\<lparr>TMR2IF := True\<rparr>"
  have "pas (mot ?s) \<le> 31" using assms by simp
  from interruptions_minuterie [OF this]
  obtain t where t: "Option.bind
      (let s1 = ?s\<lparr>TMR2IF := False\<rparr>
       in if n_hp s1 = 0 then appelle_machine TICTAC s1 else Some s1)
      (\<lambda>s2. let s3 = s2\<lparr>n_hp := n_hp s2 + 1\<rparr>
            in Some (if 25 < n_hp s3 then s3\<lparr>n_hp := 0\<rparr> else s3))
      = Some t"
    "pas (mot t) \<le> 31"
    "n_hp t = (if 25 < n_hp ?s + 1 then 0 else n_hp ?s + 1)"
    "nb_tictac t = (if n_hp ?s = 0 then Suc (nb_tictac ?s) else nb_tictac ?s)"
    by blast
  obtain t' where t': "Option.bind
      (if INT2IF t then appelle_machine AVANCE (t\<lparr>INT2IF := False\<rparr>) else Some t)
      (\<lambda>s5. if INT1IF s5 then appelle_machine RECULE (s5\<lparr>INT1IF := False\<rparr>) else Some s5)
      = Some t'"
    "pas (mot t') = pas (mot t)" "n_hp t' = n_hp t" "nb_tictac t' = nb_tictac t"
    using interruptions_boutons [of t] by blast
  have "tir s = Some t'"
    unfolding tir_def interruptionsHP_def using t(1) t'(1) by simp
  then show ?thesis
    using t(2,3,4) t'(2,3,4) by (simp add: nb_tictac_def)
qed

lemma tirs_snoc: "tirs (Suc k) s = Option.bind (tirs k s) tir"
proof (induction k arbitrary: s)
  case 0
  show ?case by (simp split: option.splits)
next
  case (Suc k)
  show ?case
  proof (cases "tir s")
    case None
    then show ?thesis by simp
  next
    case (Some s1)
    then show ?thesis using Suc [of s1] by simp
  qed
qed

lemma compteur_suivant:
  assumes "1 \<le> j" "j \<le> 25"
  shows "(of_nat j :: uchar) \<noteq> 0"
    and "(if 25 < (of_nat j :: uchar) + 1 then 0 else of_nat j + 1)
           = (if Suc j = 26 then 0 else (of_nat (Suc j) :: uchar))"
proof -
  have u: "unat (of_nat j :: uchar) = j"
    using assms(2) by (simp add: unat_of_nat)
  show "(of_nat j :: uchar) \<noteq> 0"
    using u assms(1) by (metis unat_0 not_one_le_zero)
  have v: "unat (of_nat (Suc j) :: uchar) = Suc j"
    using assms(2) by (simp add: unat_of_nat del: of_nat_Suc)
  have "(25 < (of_nat (Suc j) :: uchar)) \<longleftrightarrow> Suc j = 26"
    unfolding word_less_nat_alt v using assms(2) by auto
  then show "(if 25 < (of_nat j :: uchar) + 1 then 0 else of_nat j + 1)
           = (if Suc j = 26 then 0 else (of_nat (Suc j) :: uchar))"
    by (simp add: add.commute)
qed

lemma diviseur_apres_k:
  assumes "n_hp s = 0" "pas (mot s) \<le> 31"
  shows "k \<le> 25 \<Longrightarrow> \<exists>s'. tirs (Suc k) s = Some s' \<and> pas (mot s') \<le> 31
      \<and> nb_tictac s' = Suc (nb_tictac s)
      \<and> n_hp s' = (if Suc k = 26 then 0 else of_nat (Suc k))"
proof (induction k)
  case 0
  show ?case
    using tir_effet [OF assms(2)] assms(1) by (auto split: option.splits)
next
  case (Suc k)
  then obtain s1 where s1: "tirs (Suc k) s = Some s1" "pas (mot s1) \<le> 31"
      "nb_tictac s1 = Suc (nb_tictac s)" "n_hp s1 = of_nat (Suc k)"
    by auto
  have j: "1 \<le> Suc k" "Suc k \<le> 25" using Suc.prems by simp_all
  obtain s2 where s2: "tir s1 = Some s2" "pas (mot s2) \<le> 31"
      "n_hp s2 = (if 25 < n_hp s1 + 1 then 0 else n_hp s1 + 1)"
      "nb_tictac s2 = (if n_hp s1 = 0 then Suc (nb_tictac s1) else nb_tictac s1)"
    using tir_effet [OF s1(2)] by blast
  have "nb_tictac s2 = Suc (nb_tictac s)"
    using s2(4) compteur_suivant(1) [OF j] s1(3,4) by simp
  moreover have "n_hp s2 = (if Suc (Suc k) = 26 then 0 else of_nat (Suc (Suc k)))"
    unfolding s2(3) s1(4) by (rule compteur_suivant(2) [OF j])
  moreover have "tirs (Suc (Suc k)) s = Some s2"
    unfolding tirs_snoc [of "Suc k"] s1(1) using s2(1) by simp
  ultimately show ?case using s2(2) by blast
qed

lemma tirs_numeral:
  "tirs (numeral k) s = (case tir s of None \<Rightarrow> None | Some s' \<Rightarrow> tirs (pred_numeral k) s')"
  by (simp add: numeral_eq_Suc)

lemmas evalue_tirs =
  tirs_numeral tir_def interruptionsHP_def appelle_machine_def nb_tictac_def

section \<open>The claims\<close>

subsection \<open>C1: braking forward after a reversal\<close>

text \<open>
  Claim C1. With the position \<open>p\<close> in 0..31:
  \<^item> in \<open>MARCHE_AVANT\<close>, the event \<open>RECULE\<close> changes the state to \<open>FREIN_AVANT\<close> and
    nothing else;
  \<^item> in \<open>FREIN_AVANT\<close> with \<open>p\<close> not in {0, 8, 16, 24}, a \<open>TICTAC\<close> does what
    \<open>commutationDeplacement(p)\<close> does, moves the position to \<open>(p + 1) mod 32\<close> and stays
    in \<open>FREIN_AVANT\<close>;
  \<^item> in \<open>FREIN_AVANT\<close> with \<open>p\<close> in {0, 8, 16, 24}, a \<open>TICTAC\<close> does what
    \<open>commutationStationnement(p)\<close> does (no call of \<open>commutationDeplacement\<close>), keeps
    the position and changes the state to \<open>ARRET\<close>;
  \<^item> hence, from \<open>MARCHE_AVANT\<close>, \<open>RECULE\<close> followed by \<open>d + 1\<close> ticks, where
    \<open>d = distance_avant p\<close> is the number of micro-steps up to the next full step, ends
    in \<open>ARRET\<close> on that full step, after \<open>d\<close> calls of \<open>commutationDeplacement\<close> at
    \<open>p, p + 1, ...\<close> and one final call of \<open>commutationStationnement\<close>.
\<close>

theorem freinage_apres_RECULE:
  assumes "pas m \<le> 31"
  shows "(etat m = MARCHE_AVANT \<longrightarrow> machine RECULE m = Some (m\<lparr>etat := FREIN_AVANT\<rparr>))
       \<and> (etat m = FREIN_AVANT \<and> pas m \<notin> {0, 8, 16, 24} \<longrightarrow>
            (\<exists>m'. machine TICTAC m = Some m'
               \<and> commutationDeplacement (pas m) m = Some (m'\<lparr>pas := pas m\<rparr>)
               \<and> etat m' = FREIN_AVANT
               \<and> unat (pas m') = (unat (pas m) + 1) mod 32
               \<and> appels m' = appels m @ [Deplacement (pas m)]))
       \<and> (etat m = FREIN_AVANT \<and> pas m \<in> {0, 8, 16, 24} \<longrightarrow>
            (\<exists>m'. machine TICTAC m = Some m'
               \<and> commutationStationnement (pas m) m = Some (m'\<lparr>etat := FREIN_AVANT\<rparr>)
               \<and> etat m' = ARRET
               \<and> pas m' = pas m
               \<and> appels m' = appels m @ [Stationnement (pas m)]))
       \<and> (etat m = MARCHE_AVANT \<longrightarrow>
            (\<exists>m'. machine_suite (RECULE # replicate (Suc (distance_avant (pas m))) TICTAC) m
                     = Some m'
               \<and> etat m' = ARRET
               \<and> pas m' \<in> {0, 8, 16, 24}
               \<and> unat (pas m') = (unat (pas m) + distance_avant (pas m)) mod 32
               \<and> appels m' = appels m
                    @ map (\<lambda>i. Deplacement (of_nat ((unat (pas m) + i) mod 32)))
                        [0..<distance_avant (pas m)]
                    @ [Stationnement (pas m')]))"
proof (intro conjI impI)
  assume "etat m = MARCHE_AVANT"
  then show "machine RECULE m = Some (m\<lparr>etat := FREIN_AVANT\<rparr>)"
    by (simp add: machine_def)
next
  assume a: "etat m = FREIN_AVANT \<and> pas m \<notin> {0, 8, 16, 24}"
  then have ne: "\<not> pas_entier (pas m)" by (simp add: pas_entier_set)
  show "\<exists>m'. machine TICTAC m = Some m'
      \<and> commutationDeplacement (pas m) m = Some (m'\<lparr>pas := pas m\<rparr>)
      \<and> etat m' = FREIN_AVANT
      \<and> unat (pas m') = (unat (pas m) + 1) mod 32
      \<and> appels m' = appels m @ [Deplacement (pas m)]"
    using a assms
    by (simp add: machine_FREIN_AVANT_TICTAC [OF _ assms ne] commutationDeplacement_Some
        pas_incremente_unat)
next
  assume a: "etat m = FREIN_AVANT \<and> pas m \<in> {0, 8, 16, 24}"
  then have en: "pas_entier (pas m)" by (simp add: pas_entier_set)
  show "\<exists>m'. machine TICTAC m = Some m'
      \<and> commutationStationnement (pas m) m = Some (m'\<lparr>etat := FREIN_AVANT\<rparr>)
      \<and> etat m' = ARRET
      \<and> pas m' = pas m
      \<and> appels m' = appels m @ [Stationnement (pas m)]"
    using a assms
    by (simp add: machine_FREIN_TICTAC_entier [OF _ en] commutationStationnement_Some)
next
  assume a: "etat m = MARCHE_AVANT"
  let ?m1 = "m\<lparr>etat := FREIN_AVANT\<rparr>"
  have r: "machine RECULE m = Some ?m1"
    using a by (simp add: machine_def)
  have "etat ?m1 = FREIN_AVANT" "pas ?m1 \<le> 31" "distance_avant (pas ?m1) = distance_avant (pas m)"
    using assms by simp_all
  from freinage_avant_trace [OF this]
  show "\<exists>m'. machine_suite (RECULE # replicate (Suc (distance_avant (pas m))) TICTAC) m
                     = Some m'
               \<and> etat m' = ARRET
               \<and> pas m' \<in> {0, 8, 16, 24}
               \<and> unat (pas m') = (unat (pas m) + distance_avant (pas m)) mod 32
               \<and> appels m' = appels m
                    @ map (\<lambda>i. Deplacement (of_nat ((unat (pas m) + i) mod 32)))
                        [0..<distance_avant (pas m)]
                    @ [Stationnement (pas m')]"
    using r by (simp add: pas_entier_set del: replicate_Suc)
qed

text \<open>From position 29: three moving ticks (29, 30, 31), then parking at 0.\<close>

theorem freinage_apres_RECULE_witness:
  "pas \<lparr>etat = MARCHE_AVANT, pas = 29, CCPR3L = 16, PORTA = 9, appels = []\<rparr> \<le> 31
   \<and> machine RECULE \<lparr>etat = MARCHE_AVANT, pas = 29, CCPR3L = 16, PORTA = 9, appels = []\<rparr>
       = Some \<lparr>etat = FREIN_AVANT, pas = 29, CCPR3L = 16, PORTA = 9, appels = []\<rparr>
   \<and> machine TICTAC \<lparr>etat = FREIN_AVANT, pas = 29, CCPR3L = 16, PORTA = 9, appels = []\<rparr>
       = Some \<lparr>etat = FREIN_AVANT, pas = 30, CCPR3L = 22, PORTA = 9,
               appels = [Deplacement 29]\<rparr>
   \<and> machine TICTAC \<lparr>etat = FREIN_AVANT, pas = 0, CCPR3L = 31, PORTA = 9, appels = []\<rparr>
       = Some \<lparr>etat = ARRET, pas = 0, CCPR3L = 16, PORTA = 1, appels = [Stationnement 0]\<rparr>
   \<and> distance_avant 29 = 3
   \<and> machine_suite [RECULE, TICTAC, TICTAC, TICTAC, TICTAC]
        \<lparr>etat = MARCHE_AVANT, pas = 29, CCPR3L = 16, PORTA = 9, appels = []\<rparr>
       = Some \<lparr>etat = ARRET, pas = 0, CCPR3L = 16, PORTA = 1,
               appels = [Deplacement 29, Deplacement 30, Deplacement 31, Stationnement 0]\<rparr>"
  using
    freinage_apres_RECULE
      [of "\<lparr>etat = MARCHE_AVANT, pas = 29, CCPR3L = 16, PORTA = 9, appels = []\<rparr>"]
    freinage_apres_RECULE
      [of "\<lparr>etat = FREIN_AVANT, pas = 29, CCPR3L = 16, PORTA = 9, appels = []\<rparr>"]
    freinage_apres_RECULE
      [of "\<lparr>etat = FREIN_AVANT, pas = 0, CCPR3L = 31, PORTA = 9, appels = []\<rparr>"]
  by (simp add: evalue_machine distance_avant_def)

subsection \<open>C2: the motor only stops on a full step\<close>

text \<open>
  Claim C2. From the initial state (\<open>ARRET\<close>, position 0) every sequence of events runs
  without failure, and in the state it reaches the position is in 0..31 and, whenever
  the state is \<open>ARRET\<close>, the position is one of 0, 8, 16, 24.
\<close>

theorem arret_sur_pas_entier:
  assumes "etat m0 = ARRET" "pas m0 = 0"
  shows "\<exists>m. machine_suite evs m0 = Some m \<and> pas m \<le> 31
           \<and> (etat m = ARRET \<longrightarrow> pas m \<in> {0, 8, 16, 24})"
proof -
  have "pas m0 \<le> 31" "etat m0 = ARRET \<longrightarrow> pas_entier (pas m0)"
    using assms by (simp_all add: pas_entier_def)
  then show ?thesis
    using invariant_machine_suite [of m0 evs] by (simp add: pas_entier_set)
qed

text \<open>Backward for two ticks, then the forward button: the motor parks at 24.\<close>

theorem arret_sur_pas_entier_witness:
  "etat \<lparr>etat = ARRET, pas = 0, CCPR3L = 16, PORTA = 1, appels = []\<rparr> = ARRET
   \<and> pas \<lparr>etat = ARRET, pas = 0, CCPR3L = 16, PORTA = 1, appels = []\<rparr> = 0
   \<and> machine_suite [RECULE, TICTAC, TICTAC, AVANCE, TICTAC, TICTAC, TICTAC, TICTAC, TICTAC,
        TICTAC, TICTAC]
        \<lparr>etat = ARRET, pas = 0, CCPR3L = 16, PORTA = 1, appels = []\<rparr>
     = Some \<lparr>etat = ARRET, pas = 24, CCPR3L = 16, PORTA = 8,
         appels = [Deplacement 0, Deplacement 31, Deplacement 30, Deplacement 29,
           Deplacement 28, Deplacement 27, Deplacement 26, Deplacement 25,
           Stationnement 24]\<rparr>"
  using arret_sur_pas_entier
    [of "\<lparr>etat = ARRET, pas = 0, CCPR3L = 16, PORTA = 1, appels = []\<rparr>"
        "[RECULE, TICTAC, TICTAC, AVANCE, TICTAC, TICTAC, TICTAC, TICTAC, TICTAC,
          TICTAC, TICTAC]"]
  by (simp add: evalue_machine)

subsection \<open>C3: the divider of the fast interrupt\<close>

text \<open>
  Claim C3, as the specification states it, does not hold: the routine calls
  \<open>machine(TICTAC)\<close> when its counter is 0, before incrementing it. From the start-up
  state the first firing already hands a \<open>TICTAC\<close> to the machine, and firings 2 to 26
  hand none: after 1, 25 and 26 firings the machine has received exactly one event.
\<close>

theorem diviseur_26_counterexample:
  "n_hp demarrage = 0
   \<and> nb_tictac demarrage = 0
   \<and> map_option evenements (tirs 1 demarrage) = Some [TICTAC]
   \<and> map_option evenements (tirs 25 demarrage) = Some [TICTAC]
   \<and> map_option evenements (tirs 26 demarrage) = Some [TICTAC]
   \<and> \<not> diviseur_selon_spec demarrage"
proof -
  have a: "map_option evenements (tirs 1 demarrage) = Some [TICTAC]"
    by (simp add: demarrage_def evalue_tirs evalue_machine)
  then have "map_option nb_tictac (tirs 1 demarrage) \<noteq> Some (nb_tictac demarrage)"
    by (auto simp: nb_tictac_def demarrage_def)
  then have "\<not> diviseur_selon_spec demarrage"
    unfolding diviseur_selon_spec_def by (metis atLeastAtMost_iff le_refl one_le_numeral)
  moreover have "map_option evenements (tirs 25 demarrage) = Some [TICTAC]"
    by (simp add: demarrage_def evalue_tirs evalue_machine)
  moreover have "map_option evenements (tirs 26 demarrage) = Some [TICTAC]"
    by (simp add: demarrage_def evalue_tirs evalue_machine)
  moreover have "n_hp demarrage = 0" "nb_tictac demarrage = 0"
    by (simp_all add: demarrage_def nb_tictac_def)
  ultimately show ?thesis using a by blast
qed

text \<open>
  Claim C3, amended. Starting with the counter at 0 and the position in 0..31, in every
  group of 26 consecutive firings of the fast timer, firing 1 hands exactly one \<open>TICTAC\<close>
  to the machine and firings 2 to 26 hand none (the number of \<open>TICTAC\<close> handed over is
  one more than at the start after each of the firings 1 to 26); the counter is \<open>k\<close>
  after firing \<open>k < 26\<close> and back to 0 after firing 26. No firing fails.
\<close>

theorem diviseur_26:
  assumes "n_hp s = 0" "pas (mot s) \<le> 31"
  shows "\<forall>k \<in> {1..26}. \<exists>s'. tirs k s = Some s'
      \<and> nb_tictac s' = nb_tictac s + 1
      \<and> n_hp s' = (if k = 26 then 0 else of_nat k)"
proof
  fix k :: nat
  assume "k \<in> {1..26}"
  then obtain j where j: "k = Suc j" "j \<le> 25"
    by (cases k) auto
  show "\<exists>s'. tirs k s = Some s' \<and> nb_tictac s' = nb_tictac s + 1
      \<and> n_hp s' = (if k = 26 then 0 else of_nat k)"
    using diviseur_apres_k [OF assms j(2)] unfolding j(1) by auto
qed

text \<open>
  Running forward at position 31 with the backward button pending: the first firing
  delivers the tick, then the button; the next 25 firings deliver nothing.
\<close>

theorem diviseur_26_witness:
  "n_hp \<lparr>mot = \<lparr>etat = MARCHE_AVANT, pas = 31, CCPR3L = 1, PORTA = 5, appels = []\<rparr>,
         n_hp = 0, TMR2IF = False, INT2IF = False, INT1IF = True, evenements = []\<rparr> = 0
   \<and> pas (mot \<lparr>mot = \<lparr>etat = MARCHE_AVANT, pas = 31, CCPR3L = 1, PORTA = 5, appels = []\<rparr>,
         n_hp = 0, TMR2IF = False, INT2IF = False, INT1IF = True, evenements = []\<rparr>) \<le> 31
   \<and> tirs 1 \<lparr>mot = \<lparr>etat = MARCHE_AVANT, pas = 31, CCPR3L = 1, PORTA = 5, appels = []\<rparr>,
         n_hp = 0, TMR2IF = False, INT2IF = False, INT1IF = True, evenements = []\<rparr>
     = Some \<lparr>mot = \<lparr>etat = FREIN_AVANT, pas = 0, CCPR3L = 31, PORTA = 9,
                    appels = [Deplacement 31]\<rparr>,
         n_hp = 1, TMR2IF = False, INT2IF = False, INT1IF = False,
         evenements = [TICTAC, RECULE]\<rparr>
   \<and> tirs 26 \<lparr>mot = \<lparr>etat = MARCHE_AVANT, pas = 31, CCPR3L = 1, PORTA = 5, appels = []\<rparr>,
         n_hp = 0, TMR2IF = False, INT2IF = False, INT1IF = True, evenements = []\<rparr>
     = Some \<lparr>mot = \<lparr>etat = FREIN_AVANT, pas = 0, CCPR3L = 31, PORTA = 9,
                    appels = [Deplacement 31]\<rparr>,
         n_hp = 0, TMR2IF = False, INT2IF = False, INT1IF = False,
         evenements = [TICTAC, RECULE]\<rparr>"
  using diviseur_26
    [of "\<lparr>mot = \<lparr>etat = MARCHE_AVANT, pas = 31, CCPR3L = 1, PORTA = 5, appels = []\<rparr>,
         n_hp = 0, TMR2IF = False, INT2IF = False, INT1IF = True, evenements = []\<rparr>"]
  by (simp add: evalue_tirs evalue_machine)

subsection \<open>C4: position arithmetic modulo 32\<close>

text \<open>
  Claim C4. With the position in 0..31, a \<open>TICTAC\<close> in \<open>MARCHE_AVANT\<close> moves the position
  to \<open>(p + 1) mod 32\<close> and a \<open>TICTAC\<close> in \<open>MARCHE_ARRIERE\<close> moves it to \<open>(p - 1) mod 32\<close>
  (integer modulo, so that 0 goes to 31); in particular 31 advances to 0 and 0 retreats
  to 31. The two successor computations of the source, \<open>pas_incremente\<close> and
  \<open>pas_decremente\<close>, which the braking states use as well, are these two functions.
\<close>

theorem position_modulo_32:
  assumes "pas m \<le> 31"
  shows "(etat m = MARCHE_AVANT \<longrightarrow>
            map_option (\<lambda>m'. unat (pas m')) (machine TICTAC m)
              = Some ((unat (pas m) + 1) mod 32))
       \<and> (etat m = MARCHE_ARRIERE \<longrightarrow>
            map_option (\<lambda>m'. uint (pas m')) (machine TICTAC m)
              = Some ((uint (pas m) - 1) mod 32))
       \<and> (etat m = MARCHE_AVANT \<and> pas m = 31 \<longrightarrow>
            map_option pas (machine TICTAC m) = Some 0)
       \<and> (etat m = MARCHE_ARRIERE \<and> pas m = 0 \<longrightarrow>
            map_option pas (machine TICTAC m) = Some 31)
       \<and> unat (pas_incremente (pas m)) = (unat (pas m) + 1) mod 32
       \<and> uint (pas_decremente (pas m)) = (uint (pas m) - 1) mod 32"
proof (intro conjI impI)
  show "unat (pas_incremente (pas m)) = (unat (pas m) + 1) mod 32"
    using assms by (rule pas_incremente_unat)
next
  show "uint (pas_decremente (pas m)) = (uint (pas m) - 1) mod 32"
    using assms by (rule pas_decremente_uint)
next
  assume "etat m = MARCHE_AVANT"
  then show "map_option (\<lambda>m'. unat (pas m')) (machine TICTAC m)
      = Some ((unat (pas m) + 1) mod 32)"
    using assms by (simp add: machine_MARCHE_AVANT_TICTAC pas_incremente_unat)
next
  assume "etat m = MARCHE_ARRIERE"
  then show "map_option (\<lambda>m'. uint (pas m')) (machine TICTAC m)
      = Some ((uint (pas m) - 1) mod 32)"
    using assms by (simp add: machine_MARCHE_ARRIERE_TICTAC pas_decremente_uint)
next
  assume "etat m = MARCHE_AVANT \<and> pas m = 31"
  then show "map_option pas (machine TICTAC m) = Some 0"
    by (simp add: machine_MARCHE_AVANT_TICTAC pas_incremente_def)
next
  assume "etat m = MARCHE_ARRIERE \<and> pas m = 0"
  then show "map_option pas (machine TICTAC m) = Some 31"
    by (simp add: machine_MARCHE_ARRIERE_TICTAC pas_decremente_def)
qed

text \<open>The two wrap-arounds, on concrete states.\<close>

theorem position_modulo_32_witness:
  "pas \<lparr>etat = MARCHE_AVANT, pas = 31, CCPR3L = 16, PORTA = 1, appels = []\<rparr> \<le> 31
   \<and> map_option pas
        (machine TICTAC \<lparr>etat = MARCHE_AVANT, pas = 31, CCPR3L = 16, PORTA = 1, appels = []\<rparr>)
       = Some 0
   \<and> map_option pas
        (machine TICTAC \<lparr>etat = MARCHE_ARRIERE, pas = 0, CCPR3L = 16, PORTA = 1, appels = []\<rparr>)
       = Some 31"
  using
    position_modulo_32
      [of "\<lparr>etat = MARCHE_AVANT, pas = 31, CCPR3L = 16, PORTA = 1, appels = []\<rparr>"]
    position_modulo_32
      [of "\<lparr>etat = MARCHE_ARRIERE, pas = 0, CCPR3L = 16, PORTA = 1, appels = []\<rparr>"]
  by simp

subsection \<open>C5: what the two commutation functions write\<close>

text \<open>
  Claim C5. For every position \<open>p\<close> in 0..31, \<open>commutationStationnement\<close> writes the
  fixed amplitude 16 (half of the PWM period 32 set in \<open>PR2\<close>) to \<open>CCPR3L\<close> and entry
  \<open>p >> 3\<close> of its 4-entry table to \<open>PORTA\<close>; \<open>commutationDeplacement\<close> writes entry
  \<open>p & 0x0F\<close> of the 16-entry table \<open>cos\<close> to \<open>CCPR3L\<close> and entry \<open>p >> 3\<close> of its
  4-entry table to \<open>PORTA\<close>. Nothing else changes but the log of calls.
\<close>

theorem commutation_ecritures:
  assumes "p \<le> 31"
  shows "commutationStationnement p m =
           Some (m\<lparr>appels := appels m @ [Stationnement p],
                   CCPR3L := 16,
                   PORTA := commutateursStationnement ! unat (drop_bit 3 p)\<rparr>)
       \<and> commutationDeplacement p m =
           Some (m\<lparr>appels := appels m @ [Deplacement p],
                   CCPR3L := cos ! unat (p AND 0x0F),
                   PORTA := commutateursDeplacement ! unat (drop_bit 3 p)\<rparr>)
       \<and> 2 * (16 :: uchar) = PR2
       \<and> length commutateursStationnement = 4
       \<and> length commutateursDeplacement = 4
       \<and> length cos = 16"
  using assms
  by (simp add: commutationStationnement_Some commutationDeplacement_Some length_tables
      PR2_def)

text \<open>At position 13: amplitude \<open>cos[13] = 22\<close>, switches of the second quarter.\<close>

theorem commutation_ecritures_witness:
  "(13 :: uchar) \<le> 31
   \<and> commutationStationnement 13
        \<lparr>etat = FREIN_AVANT, pas = 13, CCPR3L = 0, PORTA = 9, appels = []\<rparr> =
       Some \<lparr>etat = FREIN_AVANT, pas = 13, CCPR3L = 16, PORTA = 4,
             appels = [Stationnement 13]\<rparr>
   \<and> commutationDeplacement 13
        \<lparr>etat = FREIN_AVANT, pas = 13, CCPR3L = 0, PORTA = 9, appels = []\<rparr> =
       Some \<lparr>etat = FREIN_AVANT, pas = 13, CCPR3L = 22, PORTA = 6,
             appels = [Deplacement 13]\<rparr>"
  using commutation_ecritures
    [of 13 "\<lparr>etat = FREIN_AVANT, pas = 13, CCPR3L = 0, PORTA = 9, appels = []\<rparr>"]
  by (simp add: commutateursStationnement_def commutateursDeplacement_def cos_def
      drop_bit_eq_div)

subsection \<open>C6: forward, then 40 ticks\<close>

text \<open>
  Claim C6. From \<open>ARRET\<close> at position 0, one \<open>AVANCE\<close> followed by 40 \<open>TICTAC\<close> events
  leaves the machine in \<open>MARCHE_AVANT\<close> at position 8 (= 40 mod 32), and the log of
  commutation calls has grown by exactly 40 calls of \<open>commutationDeplacement\<close>, the
  \<open>i\<close>-th one (from 0) at position \<open>i mod 32\<close>, the position before the increment.
\<close>

theorem scenario_40_tictac:
  assumes "etat m = ARRET" "pas m = 0"
  shows "\<exists>m'. machine_suite (AVANCE # replicate 40 TICTAC) m = Some m'
           \<and> etat m' = MARCHE_AVANT
           \<and> pas m' = 8
           \<and> appels m' = appels m @ map (\<lambda>i. Deplacement (of_nat (i mod 32))) [0..<40]
           \<and> length (appels m') = length (appels m) + 40"
proof -
  let ?m1 = "m\<lparr>etat := MARCHE_AVANT\<rparr>"
  have a: "machine AVANCE m = Some ?m1"
    using assms(1) by (simp add: machine_def)
  have "etat ?m1 = MARCHE_AVANT" "pas ?m1 \<le> 31"
    using assms(2) by simp_all
  from marche_avant_suite [OF this, of 40]
  obtain m' where m': "machine_suite (replicate 40 TICTAC) ?m1 = Some m'"
      "etat m' = MARCHE_AVANT" "unat (pas m') = 40 mod 32"
      "appels m' = appels m @ map (\<lambda>i. Deplacement (of_nat (i mod 32))) [0..<40]"
    using assms(2) by auto
  have "unat (pas m') = unat (8 :: uchar)" using m'(3) by simp
  then have "pas m' = 8" by (simp only: word_unat_eq_iff)
  moreover have "length (appels m') = length (appels m) + 40"
    unfolding m'(4) by simp
  ultimately show ?thesis
    using a m' by simp
qed

theorem scenario_40_tictac_witness:
  "etat \<lparr>etat = ARRET, pas = 0, CCPR3L = 16, PORTA = 1, appels = []\<rparr> = ARRET
   \<and> pas \<lparr>etat = ARRET, pas = 0, CCPR3L = 16, PORTA = 1, appels = []\<rparr> = 0
   \<and> machine_suite (AVANCE # replicate 40 TICTAC)
        \<lparr>etat = ARRET, pas = 0, CCPR3L = 16, PORTA = 1, appels = []\<rparr>
     = Some \<lparr>etat = MARCHE_AVANT, pas = 8, CCPR3L = 1, PORTA = 5,
         appels = map Deplacement
           [0, 1, 2, 3, 4, 5, 6, 7, 8, 9, 10, 11, 12, 13, 14, 15,
            16, 17, 18, 19, 20, 21, 22, 23, 24, 25, 26, 27, 28, 29, 30, 31,
            0, 1, 2, 3, 4, 5, 6, 7]\<rparr>"
  using scenario_40_tictac [of "\<lparr>etat = ARRET, pas = 0, CCPR3L = 16, PORTA = 1, appels = []\<rparr>"]
  unfolding replicate_40
  by (simp add: evalue_machine)

subsection \<open>C7: events without a transition are discarded\<close>

text \<open>
  Claim C7. A (state, event) pair that has no row in the transition table is a no-op:
  \<open>machine\<close> returns the very same state, position, registers and log of commutation
  calls. Any number of \<open>ARRETE\<close> events in \<open>ARRET\<close> changes nothing, and neither does a
  \<open>TICTAC\<close> in \<open>ARRET\<close>.
\<close>

theorem evenement_hors_table_sans_effet:
  "(\<not> table_transitions (etat m) ev \<longrightarrow> machine ev m = Some m)
   \<and> (etat m = ARRET \<longrightarrow> machine_suite (replicate k ARRETE) m = Some m)
   \<and> (etat m = ARRET \<longrightarrow> machine ARRETE m = Some m \<and> machine TICTAC m = Some m)"
proof (intro conjI impI)
  assume "\<not> table_transitions (etat m) ev"
  then show "machine ev m = Some m"
    by (cases "etat m"; cases ev) (simp_all add: table_transitions_def machine_def)
next
  assume "etat m = ARRET"
  then show "machine_suite (replicate k ARRETE) m = Some m"
    by (intro machine_suite_ARRET_fixe) auto
next
  assume "etat m = ARRET"
  then show "machine ARRETE m = Some m" by (simp add: machine_def)
next
  assume "etat m = ARRET"
  then show "machine TICTAC m = Some m" by (simp add: machine_def)
qed

text \<open>\<open>RECULE\<close> while braking forward, and three \<open>ARRETE\<close> in \<open>ARRET\<close>.\<close>

theorem evenement_hors_table_sans_effet_witness:
  "\<not> table_transitions FREIN_AVANT RECULE
   \<and> machine RECULE \<lparr>etat = FREIN_AVANT, pas = 13, CCPR3L = 22, PORTA = 6, appels = []\<rparr>
       = Some \<lparr>etat = FREIN_AVANT, pas = 13, CCPR3L = 22, PORTA = 6, appels = []\<rparr>
   \<and> machine_suite (replicate 3 ARRETE)
        \<lparr>etat = ARRET, pas = 8, CCPR3L = 16, PORTA = 4, appels = []\<rparr>
       = Some \<lparr>etat = ARRET, pas = 8, CCPR3L = 16, PORTA = 4, appels = []\<rparr>"
  using
    evenement_hors_table_sans_effet
      [of "\<lparr>etat = FREIN_AVANT, pas = 13, CCPR3L = 22, PORTA = 6, appels = []\<rparr>" RECULE 3]
    evenement_hors_table_sans_effet
      [of "\<lparr>etat = ARRET, pas = 8, CCPR3L = 16, PORTA = 4, appels = []\<rparr>" ARRETE 3]
  by (simp add: table_transitions_def)

subsection \<open>C8: braking ends on the next full step within 8 ticks\<close>

text \<open>
  Claim C8. From \<open>FREIN_AVANT\<close> or \<open>FREIN_ARRIERE\<close> at any position \<open>p\<close> in 0..31, a
  number \<open>k\<close> of consecutive \<open>TICTAC\<close> events with \<open>1 \<le> k \<le> 8\<close> brings the machine to
  \<open>ARRET\<close> on the next full step in the direction of travel:
  \<^item> \<open>k\<close> is one more than the number of micro-steps up to that full step, and before
    the \<open>k\<close>-th tick the machine is still in its braking state;
  \<^item> the position reached is one of 0, 8, 16, 24: braking forward it is the least
    multiple of 8 that is at least \<open>p\<close>, taken modulo 32 (so 25..31 park at 0); braking
    backward it is the greatest multiple of 8 that is at most \<open>p\<close>;
  \<^item> on the way \<open>commutationDeplacement\<close> is called once at each position passed, and
    \<open>commutationStationnement\<close> once, last, at the position reached;
  \<^item> \<open>ARRET\<close> ignores further ticks, so after exactly 8 ticks the machine is in that
    same parked state. No tick of the run fails.
\<close>

theorem freinage_borne:
  assumes "pas m \<le> 31" "etat m = FREIN_AVANT \<or> etat m = FREIN_ARRIERE"
  shows "\<exists>k m'. 1 \<le> k \<and> k \<le> 8
       \<and> k = Suc (if etat m = FREIN_AVANT then distance_avant (pas m)
                   else distance_arriere (pas m))
       \<and> (\<forall>j<k. map_option etat (machine_suite (replicate j TICTAC) m) = Some (etat m))
       \<and> machine_suite (replicate k TICTAC) m = Some m'
       \<and> machine_suite (replicate 8 TICTAC) m = Some m'
       \<and> etat m' = ARRET
       \<and> pas m' \<in> {0, 8, 16, 24}
       \<and> unat (pas m') =
           (if etat m = FREIN_AVANT then (8 * ((unat (pas m) + 7) div 8)) mod 32
            else 8 * (unat (pas m) div 8))
       \<and> appels m' = appels m
           @ map (\<lambda>i. Deplacement (of_nat
                 (if etat m = FREIN_AVANT then (unat (pas m) + i) mod 32
                  else unat (pas m) - i))) [0..<k - 1]
           @ [Stationnement (pas m')]"
proof (cases "etat m = FREIN_AVANT")
  case True
  let ?d = "distance_avant (pas m)"
  have d: "?d < 8" by (simp add: distance_avant_def)
  obtain m' where m': "machine_suite (replicate (Suc ?d) TICTAC) m = Some m'"
      "etat m' = ARRET" "pas_entier (pas m')"
      "unat (pas m') = (unat (pas m) + ?d) mod 32"
      "appels m' = appels m
         @ map (\<lambda>i. Deplacement (of_nat ((unat (pas m) + i) mod 32))) [0..<?d]
         @ [Stationnement (pas m')]"
    using freinage_avant_trace [OF True assms(1) refl] by blast
  have "\<forall>j<Suc ?d. map_option etat (machine_suite (replicate j TICTAC) m) = Some (etat m)"
    using freinage_avant_pendant [OF True assms(1)] True by simp
  moreover have "machine_suite (replicate 8 TICTAC) m = Some m'"
    by (rule machine_suite_ARRET_8 [OF m'(1,2) d])
  moreover have "unat (pas m') = (8 * ((unat (pas m) + 7) div 8)) mod 32"
    unfolding m'(4) by (rule prochain_pas_avant [OF assms(1)])
  moreover have "pas m' \<in> {0, 8, 16, 24}"
    using m'(3) by (simp add: pas_entier_set)
  moreover have "1 \<le> Suc ?d \<and> Suc ?d \<le> 8" using d by simp
  ultimately show ?thesis
    using True m'(1,2,5) by (intro exI [of _ "Suc ?d"] exI [of _ m']) simp
next
  case False
  then have b: "etat m = FREIN_ARRIERE" using assms(2) by simp
  let ?d = "distance_arriere (pas m)"
  have d: "?d < 8" by (simp add: distance_arriere_def)
  obtain m' where m': "machine_suite (replicate (Suc ?d) TICTAC) m = Some m'"
      "etat m' = ARRET" "pas_entier (pas m')"
      "unat (pas m') = unat (pas m) - ?d"
      "appels m' = appels m
         @ map (\<lambda>i. Deplacement (of_nat (unat (pas m) - i))) [0..<?d]
         @ [Stationnement (pas m')]"
    using freinage_arriere_trace [OF b assms(1) refl] by blast
  have "\<forall>j<Suc ?d. map_option etat (machine_suite (replicate j TICTAC) m) = Some (etat m)"
    using freinage_arriere_pendant [OF b assms(1)] b by simp
  moreover have "machine_suite (replicate 8 TICTAC) m = Some m'"
    by (rule machine_suite_ARRET_8 [OF m'(1,2) d])
  moreover have "unat (pas m') = 8 * (unat (pas m) div 8)"
    unfolding m'(4) by (rule prochain_pas_arriere)
  moreover have "pas m' \<in> {0, 8, 16, 24}"
    using m'(3) by (simp add: pas_entier_set)
  moreover have "1 \<le> Suc ?d \<and> Suc ?d \<le> 8" using d by simp
  ultimately show ?thesis
    using b m'(1,2,5) by (intro exI [of _ "Suc ?d"] exI [of _ m']) simp
qed

text \<open>
  The bound is reached braking forward from position 25: still braking after 7 ticks,
  parked at 0 after 8. Braking backward from position 13 parks at 8 with the sixth tick.
\<close>

theorem freinage_borne_witness:
  "pas \<lparr>etat = FREIN_AVANT, pas = 25, CCPR3L = 16, PORTA = 1, appels = []\<rparr> \<le> 31
   \<and> pas \<lparr>etat = FREIN_ARRIERE, pas = 13, CCPR3L = 16, PORTA = 1, appels = []\<rparr> \<le> 31
   \<and> map_option etat (machine_suite (replicate 7 TICTAC)
         \<lparr>etat = FREIN_AVANT, pas = 25, CCPR3L = 16, PORTA = 1, appels = []\<rparr>)
       = Some FREIN_AVANT
   \<and> machine_suite (replicate 8 TICTAC)
         \<lparr>etat = FREIN_AVANT, pas = 25, CCPR3L = 16, PORTA = 1, appels = []\<rparr>
       = Some \<lparr>etat = ARRET, pas = 0, CCPR3L = 16, PORTA = 1,
           appels = [Deplacement 25, Deplacement 26, Deplacement 27, Deplacement 28,
             Deplacement 29, Deplacement 30, Deplacement 31, Stationnement 0]\<rparr>
   \<and> map_option etat (machine_suite (replicate 5 TICTAC)
         \<lparr>etat = FREIN_ARRIERE, pas = 13, CCPR3L = 16, PORTA = 1, appels = []\<rparr>)
       = Some FREIN_ARRIERE
   \<and> machine_suite (replicate 6 TICTAC)
         \<lparr>etat = FREIN_ARRIERE, pas = 13, CCPR3L = 16, PORTA = 1, appels = []\<rparr>
       = Some \<lparr>etat = ARRET, pas = 8, CCPR3L = 16, PORTA = 4,
           appels = [Deplacement 13, Deplacement 12, Deplacement 11, Deplacement 10,
             Deplacement 9, Stationnement 8]\<rparr>
   \<and> machine_suite (replicate 8 TICTAC)
         \<lparr>etat = FREIN_ARRIERE, pas = 13, CCPR3L = 16, PORTA = 1, appels = []\<rparr>
       = Some \<lparr>etat = ARRET, pas = 8, CCPR3L = 16, PORTA = 4,
           appels = [Deplacement 13, Deplacement 12, Deplacement 11, Deplacement 10,
             Deplacement 9, Stationnement 8]\<rparr>"
proof -
  have r: "replicate 5 TICTAC = [TICTAC, TICTAC, TICTAC, TICTAC, TICTAC]"
    "replicate 6 TICTAC = [TICTAC, TICTAC, TICTAC, TICTAC, TICTAC, TICTAC]"
    "replicate 7 TICTAC = [TICTAC, TICTAC, TICTAC, TICTAC, TICTAC, TICTAC, TICTAC]"
    "replicate 8 TICTAC =
       [TICTAC, TICTAC, TICTAC, TICTAC, TICTAC, TICTAC, TICTAC, TICTAC]"
    by (simp_all add: numeral_eq_Suc)
  show ?thesis
    using
      freinage_borne
        [of "\<lparr>etat = FREIN_AVANT, pas = 25, CCPR3L = 16, PORTA = 1, appels = []\<rparr>"]
      freinage_borne
        [of "\<lparr>etat = FREIN_ARRIERE, pas = 13, CCPR3L = 16, PORTA = 1, appels = []\<rparr>"]
    unfolding r by (simp add: evalue_machine)
qed

subsection \<open>C9: only a tick moves the position or drives the outputs\<close>

text \<open>
  Claim C9. In every state, an event other than \<open>TICTAC\<close> (\<open>AVANCE\<close>, \<open>RECULE\<close> or
  \<open>ARRETE\<close>) changes at most the field \<open>etat\<close>: the position, the registers \<open>CCPR3L\<close>
  and \<open>PORTA\<close> and the log of commutation calls are what they were, and the call cannot
  fail.
\<close>

theorem seul_TICTAC_agit:
  assumes "ev \<noteq> TICTAC"
  shows "\<exists>e'. machine ev m = Some (m\<lparr>etat := e'\<rparr>)"
  using assms by (rule machine_sauf_TICTAC)

theorem seul_TICTAC_agit_witness:
  "RECULE \<noteq> TICTAC
   \<and> machine RECULE \<lparr>etat = MARCHE_AVANT, pas = 13, CCPR3L = 22, PORTA = 6, appels = []\<rparr>
       = Some \<lparr>etat = FREIN_AVANT, pas = 13, CCPR3L = 22, PORTA = 6, appels = []\<rparr>"
  using seul_TICTAC_agit
    [of RECULE "\<lparr>etat = MARCHE_AVANT, pas = 13, CCPR3L = 22, PORTA = 6, appels = []\<rparr>"]
  by (simp add: machine_def)

subsection \<open>C10: every table index is in bounds\<close>

text \<open>
  Claim C10. For a position \<open>p\<close> in 0..31, \<open>p >> 3\<close> is in 0..3, below the length of the
  two 4-entry switch tables, and \<open>p & 0x0F\<close> is in 0..15, below the length of the
  16-entry table \<open>cos\<close>: the three reads succeed, and neither commutation function reads
  outside its tables.
\<close>

theorem indices_dans_les_tables:
  assumes "p \<le> 31"
  shows "unat (drop_bit 3 p) \<le> 3
       \<and> unat (p AND 0x0F) \<le> 15
       \<and> unat (drop_bit 3 p) < length commutateursStationnement
       \<and> unat (drop_bit 3 p) < length commutateursDeplacement
       \<and> unat (p AND 0x0F) < length cos
       \<and> lire commutateursStationnement (drop_bit 3 p) =
           Some (commutateursStationnement ! unat (drop_bit 3 p))
       \<and> lire commutateursDeplacement (drop_bit 3 p) =
           Some (commutateursDeplacement ! unat (drop_bit 3 p))
       \<and> lire cos (p AND 0x0F) = Some (cos ! unat (p AND 0x0F))
       \<and> commutationStationnement p m \<noteq> None
       \<and> commutationDeplacement p m \<noteq> None"
  using indice_commutateurs [OF assms] indice_cos [of p]
  by (simp add: lire_def length_tables commutationStationnement_Some [OF assms]
      commutationDeplacement_Some [OF assms])

text \<open>The largest position reads the last entry of each table.\<close>

theorem indices_dans_les_tables_witness:
  "(31 :: uchar) \<le> 31
   \<and> unat (drop_bit 3 (31 :: uchar)) = 3
   \<and> unat ((31 :: uchar) AND 0x0F) = 15
   \<and> lire commutateursStationnement (drop_bit 3 31) = Some 8
   \<and> lire commutateursDeplacement (drop_bit 3 31) = Some 9
   \<and> lire cos (31 AND 0x0F) = Some 31"
  using indices_dans_les_tables
    [of 31 "\<lparr>etat = ARRET, pas = 31, CCPR3L = 0, PORTA = 0, appels = []\<rparr>"]
  by (simp add: commutateursStationnement_def commutateursDeplacement_def cos_def
      drop_bit_eq_div)

end
